theory Spec2Isabelle
  imports Main "HOL-Library.AList"
begin

section \<open>Python values\<close>

text \<open>
  The consumers of \<^verbatim>\<open>collab/consumers.py\<close> receive decoded JSON. A value is one of the
  JSON shapes; a Python \<^verbatim>\<open>dict\<close> is an association list read with \<^const>\<open>map_of\<close>,
  deleted from with \<^const>\<open>AList.delete\<close> and assigned to with \<^const>\<open>AList.update\<close>.
\<close>

datatype json =
    JNull
  | JBool bool
  | JInt int
  | JStr string
  | JList "json list"
  | JDict "(string \<times> json) list"

type_synonym dict = "(string \<times> json) list"

datatype py_error =
    KeyError string
  | IndexError
  | TypeError
  | AttributeError string
  | DoesNotExist nat
  | OtherError string

text \<open>Python truthiness, as \<^verbatim>\<open>if time\<close> reads it.\<close>

fun truthy :: "json \<Rightarrow> bool" where
  "truthy JNull = False"
| "truthy (JBool b) = b"
| "truthy (JInt n) = (n \<noteq> 0)"
| "truthy (JStr s) = (s \<noteq> [])"
| "truthy (JList xs) = (xs \<noteq> [])"
| "truthy (JDict kvs) = (kvs \<noteq> [])"

section \<open>Elements and the room store\<close>

text \<open>
  An element of the canvas: \<^verbatim>\<open>e['id']\<close>, \<^verbatim>\<open>e['version']\<close>, the optional key
  \<^verbatim>\<open>isDeleted\<close> (\<open>None\<close> when the key is absent) and the remaining keys of the drawable.
\<close>

record element =
  el_id :: string
  version :: int
  isDeleted :: "bool option"
  el_fields :: dict

text \<open>\<^verbatim>\<open>e.get('isDeleted', False)\<close>\<close>

definition is_deleted :: "element \<Rightarrow> bool" where
  "is_deleted e = (case isDeleted e of None \<Rightarrow> False | Some b \<Rightarrow> b)"

text \<open>
  The table of \<^verbatim>\<open>ExcalidrawRoom\<close>, keyed by \<^verbatim>\<open>room_name\<close>; of a room only its element
  collection matters here. The model class and the pair \<^verbatim>\<open>dump_content\<close> / the
  \<^verbatim>\<open>elements\<close> property (serialise on write, parse on read) are declared in
  \<^verbatim>\<open>collab/models.py\<close> and \<^verbatim>\<open>draw/utils\<close>: the store holds the element collection itself, which is what writing
  with \<^verbatim>\<open>dump_content\<close> and reading through \<^verbatim>\<open>elements\<close> amounts to.
\<close>

type_synonym room_store = "string \<rightharpoonup> element list"

text \<open>
  Modelled from the spec: the element collection of a room record that
  \<^verbatim>\<open>get_or_create\<close> has just created (the default of the model field, declared in
  \<^verbatim>\<open>collab/models.py\<close>). The spec calls such a room one with "no prior snapshot".
\<close>

definition new_room_elements :: "element list" where
  "new_room_elements = []"

text \<open>Django's \<^verbatim>\<open>objects.get_or_create(room_name=...)\<close>: the room and whether it was created.\<close>

definition get_or_create_room :: "room_store \<Rightarrow> string \<Rightarrow> (element list \<times> bool) \<times> room_store" where
  "get_or_create_room db room_name =
     (case db room_name of
        Some els \<Rightarrow> ((els, False), db)
      | None \<Rightarrow> ((new_room_elements, True), db(room_name \<mapsto> new_room_elements)))"

text \<open>Django's \<^verbatim>\<open>objects.update_or_create(room_name=..., defaults={'_elements': ...})\<close>.\<close>

definition upsert_room :: "room_store \<Rightarrow> string \<Rightarrow> element list \<Rightarrow> room_store" where
  "upsert_room db room_name elements = db(room_name \<mapsto> elements)"

section \<open>The reconciler: \<^verbatim>\<open>CollaborationConsumer.save_room\<close>\<close>

text \<open>
  \<^verbatim>\<open>{e['id']: e['version'] for e in old_room.elements}\<close>: a later element with the same
  id overwrites an earlier one.
\<close>

definition old_room_versions :: "element list \<Rightarrow> (string \<rightharpoonup> int)" where
  "old_room_versions els = fold (\<lambda>e m. m(el_id e \<mapsto> version e)) els Map.empty"

text \<open>\<^verbatim>\<open>old_room_versions.get(e['id'], -1)\<close>\<close>

definition old_version_of :: "(string \<rightharpoonup> int) \<Rightarrow> element \<Rightarrow> int" where
  "old_version_of versions e = (case versions (el_id e) of Some v \<Rightarrow> v | None \<Rightarrow> - 1)"

text \<open>
  The loop of lines 158 to 163, with \<^verbatim>\<open>differences_detected\<close> as accumulator:
  \<open>None\<close> is the \<^verbatim>\<open>return\<close> inside the loop.
\<close>

fun check_versions :: "(string \<rightharpoonup> int) \<Rightarrow> element list \<Rightarrow> bool \<Rightarrow> bool option" where
  "check_versions versions [] differences_detected = Some differences_detected"
| "check_versions versions (e # es) differences_detected =
     (let old_version = old_version_of versions e in
      if old_version > version e then None
      else check_versions versions es (differences_detected \<or> old_version < version e))"

text \<open>
  \<^verbatim>\<open>save_room\<close> returns nothing; the model returns which of its three exits was taken
  together with the store: \<open>Stale\<close> is the \<^verbatim>\<open>return\<close> of line 161, \<open>NoDifference\<close> the one
  of line 166, \<open>Saved\<close> the end of the function after \<^verbatim>\<open>upsert_room\<close>.
\<close>

datatype save_outcome = Stale | NoDifference | Saved

definition save_room :: "room_store \<Rightarrow> string \<Rightarrow> element list \<Rightarrow> save_outcome \<times> room_store" where
  "save_room db room_name elements =
     (case get_or_create_room db room_name of
        ((old_elements, created), db1) \<Rightarrow>
          let versions = old_room_versions old_elements;
              elements1 = filter (\<lambda>e. \<not> is_deleted e) elements
          in (case (if \<not> created then check_versions versions elements1 False else Some False) of
                None \<Rightarrow> (Stale, db1)
              | Some differences_detected \<Rightarrow>
                  (if \<not> differences_detected then (NoDifference, db1)
                   else (Saved, upsert_room db1 room_name elements1))))"

text \<open>The version the store holds for an element id of a room, read as \<^verbatim>\<open>save_room\<close> reads it.\<close>

definition persisted_version :: "room_store \<Rightarrow> string \<Rightarrow> string \<Rightarrow> int option" where
  "persisted_version db room_name i =
     (case db room_name of None \<Rightarrow> None | Some els \<Rightarrow> old_room_versions els i)"

text \<open>
  A run of \<^verbatim>\<open>save_room\<close> calls, each on a room with a collection: the stores the run
  passes through, the starting store first.
\<close>

fun save_room_trace :: "room_store \<Rightarrow> (string \<times> element list) list \<Rightarrow> room_store list" where
  "save_room_trace db [] = [db]"
| "save_room_trace db ((room_name, elements) # calls) =
     db # save_room_trace (snd (save_room db room_name elements)) calls"

text \<open>
  What creates and changes rooms: \<^verbatim>\<open>connect\<close> and the launch views get or create a room
  without elements, \<^verbatim>\<open>save_room\<close> reconciles.
\<close>

datatype store_op = GetOrCreate string | SaveRoom string "element list"

fun apply_store_op :: "store_op \<Rightarrow> room_store \<Rightarrow> room_store" where
  "apply_store_op (GetOrCreate room_name) db = snd (get_or_create_room db room_name)"
| "apply_store_op (SaveRoom room_name elements) db = snd (save_room db room_name elements)"

definition run_store_ops :: "store_op list \<Rightarrow> room_store" where
  "run_store_ops ops = fold apply_store_op ops Map.empty"


text \<open>No room of the store holds an element that is marked deleted.\<close>

definition tombstone_free :: "room_store \<Rightarrow> bool" where
  "tombstone_free db = (\<forall>room_name els e. db room_name = Some els \<longrightarrow> e \<in> set els \<longrightarrow> \<not> is_deleted e)"

section \<open>The log, the channel layer and the sessions\<close>

text \<open>
  \<^verbatim>\<open>ExcalidrawLogRecord\<close>. Its content is a change record (\<^verbatim>\<open>collaborator_change\<close>) or an
  element collection (\<^verbatim>\<open>elements_changed\<close>, \<^verbatim>\<open>full_sync\<close>). The primary key \<open>lr_id\<close> is
  given by the data base when the record is saved; a record not yet saved carries 0.
\<close>

type_synonym timestamp = int

datatype record_content = ChangeContent dict | ElementsContent "element list"

record log_record =
  lr_id :: nat
  lr_room_name :: string
  event_type :: string
  user_pseudonym :: string
  created_at :: "timestamp option"
  lr_content :: record_content

text \<open>The auto-incremented primary key: one more than every key in the table.\<close>

definition next_id :: "log_record list \<Rightarrow> nat" where
  "next_id recs = Suc (fold max (map lr_id recs) 0)"

text \<open>\<^verbatim>\<open>record.save()\<close> and \<^verbatim>\<open>objects.bulk_create(records)\<close> on the table.\<close>

definition save_record :: "log_record \<Rightarrow> log_record list \<Rightarrow> log_record list" where
  "save_record r recs = recs @ [r\<lparr>lr_id := next_id recs\<rparr>]"

definition bulk_create_records :: "log_record list \<Rightarrow> log_record list \<Rightarrow> log_record list" where
  "bulk_create_records records recs = fold save_record records recs"

text \<open>
  A notification is the dict \<^verbatim>\<open>{'eventtype': eventtype, **event_args}\<close>; the keyword
  arguments are one of the shapes the consumers build: \<^verbatim>\<open>elements=...\<close> with the
  remaining keys of the inbound message, \<^verbatim>\<open>changes=[...]\<close>, \<^verbatim>\<open>collaborator=...\<close>, or none.
\<close>

datatype event_args =
    NoArgs
  | ElementsArgs record_content dict
  | ChangesArgs "dict list"
  | CollaboratorArgs dict

record notification =
  n_eventtype :: string
  n_args :: event_args

text \<open>The message \<^verbatim>\<open>send_event\<close> hands to the channel layer.\<close>

record envelope =
  e_type :: string
  e_notification :: notification
  e_sender :: string

record user =
  u_id :: "nat option"
  u_username :: string

text \<open>
  One \<^verbatim>\<open>CollaborationConsumer\<close>: its channel name, the room of its URL, the user of its
  scope and \<^verbatim>\<open>user_room_id\<close>, an attribute that exists only once \<^verbatim>\<open>connect\<close> has
  admitted the session (\<open>None\<close>: reading it raises \<^verbatim>\<open>AttributeError\<close>).
\<close>

record consumer =
  c_channel_name :: string
  c_room_name :: string
  c_user :: user
  c_user_room_id :: "string option"

text \<open>
  What the sessions share: the room table, the log table, the groups of the channel
  layer (group name to the channel names registered), every notification a session has
  sent to its own client with \<^verbatim>\<open>send_json\<close> (channel name and notification, in order),
  the accepted sockets and the closed ones with their close code.
\<close>

record world =
  rooms :: room_store
  log_records :: "log_record list"
  groups :: "string \<Rightarrow> string list"
  client_inbox :: "(string \<times> notification) list"
  accepted :: "string list"
  closed :: "(string \<times> int) list"

definition channel_prefix :: string where
  "channel_prefix = ''draw_room_''"

definition group_name :: "consumer \<Rightarrow> string" where
  "group_name self = channel_prefix @ c_room_name self"

text \<open>\<^verbatim>\<open>self.send_json(notification)\<close> of the session with that channel name.\<close>

definition send_json :: "string \<Rightarrow> notification \<Rightarrow> world \<Rightarrow> world" where
  "send_json channel n w = w\<lparr>client_inbox := client_inbox w @ [(channel, n)]\<rparr>"

text \<open>\<^verbatim>\<open>notify_client\<close>, run by the session with channel name \<open>channel\<close>.\<close>

definition notify_client :: "string \<Rightarrow> envelope \<Rightarrow> world \<Rightarrow> world" where
  "notify_client channel event w =
     (if e_sender event \<noteq> channel then send_json channel (e_notification event) w else w)"

text \<open>
  The channel layer of Django Channels: \<^verbatim>\<open>group_add\<close> and \<^verbatim>\<open>group_discard\<close> keep a
  group as a set of channel names; \<^verbatim>\<open>group_send\<close> hands the message to every channel
  of the group, whose consumer runs the handler the message's \<^verbatim>\<open>type\<close> names, here
  always \<^verbatim>\<open>notify_client\<close>. Delivery is modelled as immediate.
\<close>

definition group_add :: "string \<Rightarrow> string \<Rightarrow> world \<Rightarrow> world" where
  "group_add g channel w = w\<lparr>groups := (groups w)(g := List.insert channel (groups w g))\<rparr>"

definition group_discard :: "string \<Rightarrow> string \<Rightarrow> world \<Rightarrow> world" where
  "group_discard g channel w = w\<lparr>groups := (groups w)(g := removeAll channel (groups w g))\<rparr>"

definition group_send :: "string \<Rightarrow> envelope \<Rightarrow> world \<Rightarrow> world" where
  "group_send g event w = fold (\<lambda>channel. notify_client channel event) (groups w g) w"

definition send_event :: "consumer \<Rightarrow> string \<Rightarrow> event_args \<Rightarrow> world \<Rightarrow> world" where
  "send_event self eventtype event_args w =
     group_send (group_name self)
       \<lparr>e_type = ''notify_client'',
        e_notification = \<lparr>n_eventtype = eventtype, n_args = event_args\<rparr>,
        e_sender = c_channel_name self\<rparr> w"

text \<open>
  Modelled from the spec: \<^verbatim>\<open>connect\<close> and \<^verbatim>\<open>disconnect\<close> of the base class
  \<^verbatim>\<open>LoggingAsyncJsonWebsocketConsumer\<close> (declared in \<^verbatim>\<open>draw/utils/django_loaded.py\<close>): the first opens the connection, the second is the transport-level teardown
  that ends the connection with the given close code.
\<close>

definition base_connect :: "consumer \<Rightarrow> world \<Rightarrow> world" where
  "base_connect self w = w\<lparr>accepted := accepted w @ [c_channel_name self]\<rparr>"

definition base_disconnect :: "consumer \<Rightarrow> int \<Rightarrow> world \<Rightarrow> world" where
  "base_disconnect self code w = w\<lparr>closed := closed w @ [(c_channel_name self, code)]\<rparr>"

text \<open>What the session with a channel name has sent to its client, in order.\<close>

definition delivered_to :: "string \<Rightarrow> world \<Rightarrow> notification list" where
  "delivered_to channel w = map snd (filter (\<lambda>(c, n). c = channel) (client_inbox w))"

subsection \<open>\<^verbatim>\<open>CollaborationConsumer.disconnect\<close> and \<^verbatim>\<open>connect\<close>\<close>

definition disconnect :: "consumer \<Rightarrow> int \<Rightarrow> world \<Rightarrow> py_error + world" where
  "disconnect self code w =
     (if code \<noteq> 3000 then
        (case c_user_room_id self of
           None \<Rightarrow> Inl (AttributeError ''user_room_id'')
         | Some uid \<Rightarrow>
             Inr (base_disconnect self code
                   (group_discard (group_name self) (c_channel_name self)
                     (send_event self ''collaborator_left''
                        (CollaboratorArgs [(''userRoomId'', JStr uid)]) w))))
      else Inr (base_disconnect self code w))"

text \<open>
  \<^verbatim>\<open>connect\<close>. The setting \<^verbatim>\<open>ALLOW_ANONYMOUS_VISITS\<close>, the answers of
  \<^verbatim>\<open>user_is_authenticated\<close> and \<^verbatim>\<open>user_is_authorized\<close>, and the pseudonym that line 72
  to 74 compute (\<^verbatim>\<open>id_for_room\<close> of a known user, \<^verbatim>\<open>user_id_for_room\<close> of a fresh UUID
  otherwise) come from outside the sources and are parameters. \<^verbatim>\<open>auth_room\<close> is
  \<^verbatim>\<open>get_or_create\<close> on the room table. The result is the session with its attributes
  and the world.
\<close>

definition connect ::
  "bool \<Rightarrow> bool \<Rightarrow> bool \<Rightarrow> string \<Rightarrow> consumer \<Rightarrow> world \<Rightarrow> py_error + (consumer \<times> world)" where
  "connect allow_anonymous_visits authenticated authorized pseudonym self w =
     (let w1 = w\<lparr>rooms := snd (get_or_create_room (rooms w) (c_room_name self))\<rparr> in
      if \<not> allow_anonymous_visits \<and> \<not> authenticated \<and> \<not> authorized then
        (let w2 = base_connect self w1;
             w3 = send_json (c_channel_name self) \<lparr>n_eventtype = ''login_required'', n_args = NoArgs\<rparr> w2
         in (case disconnect self 3000 w3 of
               Inl err \<Rightarrow> Inl err
             | Inr w4 \<Rightarrow> Inr (self, w4)))
      else
        (let self1 = self\<lparr>c_user_room_id := Some pseudonym\<rparr>;
             w2 = group_add (group_name self1) (c_channel_name self1) w1
         in Inr (self1, base_connect self1 w2)))"

subsection \<open>\<^verbatim>\<open>collaborator_change\<close>\<close>

text \<open>
  \<^verbatim>\<open>parse_datetime(time) if time else now()\<close>, for the value \<^verbatim>\<open>change.pop('time', None)\<close>
  gave. Django's \<^verbatim>\<open>parse_datetime\<close> is a parameter: it raises, or returns a time or
  Python's \<^verbatim>\<open>None\<close>; on anything but a string it raises \<^verbatim>\<open>TypeError\<close>.
\<close>

definition change_time ::
  "(string \<Rightarrow> py_error + timestamp option) \<Rightarrow> timestamp \<Rightarrow> json option \<Rightarrow> py_error + timestamp option" where
  "change_time parse_datetime now time =
     (case time of
        None \<Rightarrow> Inr (Some now)
      | Some t \<Rightarrow>
          (if truthy t then (case t of JStr s \<Rightarrow> parse_datetime s | _ \<Rightarrow> Inl TypeError)
           else Inr (Some now)))"

text \<open>
  The loop of lines 97 to 108 over \<^verbatim>\<open>changes\<close>, giving the list \<^verbatim>\<open>records\<close>:
  \<^verbatim>\<open>del change['username']\<close> raises \<^verbatim>\<open>KeyError\<close> when the key is missing.
\<close>

fun change_records ::
  "(string \<Rightarrow> py_error + timestamp option) \<Rightarrow> timestamp \<Rightarrow> consumer \<Rightarrow> string \<Rightarrow> string \<Rightarrow>
     dict list \<Rightarrow> py_error + log_record list" where
  "change_records parse_datetime now self room_name eventtype [] = Inr []"
| "change_records parse_datetime now self room_name eventtype (change # changes) =
     (if ''username'' \<notin> fst ` set change then Inl (KeyError ''username'')
      else
        (let change1 = AList.delete ''username'' change;
             time = map_of change1 ''time'';
             change2 = AList.delete ''time'' change1
         in (case change_time parse_datetime now time of
               Inl err \<Rightarrow> Inl err
             | Inr t \<Rightarrow>
                 (case c_user_room_id self of
                    None \<Rightarrow> Inl (AttributeError ''user_room_id'')
                  | Some uid \<Rightarrow>
                      (case change_records parse_datetime now self room_name eventtype changes of
                         Inl err \<Rightarrow> Inl err
                       | Inr records \<Rightarrow>
                           Inr (\<lparr>lr_id = 0, lr_room_name = room_name, event_type = eventtype,
                                 user_pseudonym = uid, created_at = t,
                                 lr_content = ChangeContent change2\<rparr> # records))))))"

text \<open>
  The handler. \<^verbatim>\<open>deepcopy(changes[-1])\<close> is taken before the loop changes the records,
  so it is the last record as the client sent it; \<^verbatim>\<open>changes[-1]\<close> raises
  \<^verbatim>\<open>IndexError\<close> on an empty batch. The two actions of \<^verbatim>\<open>gather\<close> touch different
  parts of the world (the log table, the clients).
\<close>

definition collaborator_change ::
  "(string \<Rightarrow> py_error + timestamp option) \<Rightarrow> timestamp \<Rightarrow> consumer \<Rightarrow> string \<Rightarrow> string \<Rightarrow>
     dict list \<Rightarrow> world \<Rightarrow> py_error + world" where
  "collaborator_change parse_datetime now self room_name eventtype changes w =
     (if changes = [] then Inl IndexError
      else
        (let collaborator_to_send = last changes in
         (case change_records parse_datetime now self room_name eventtype changes of
            Inl err \<Rightarrow> Inl err
          | Inr records \<Rightarrow>
              (case c_user_room_id self of
                 None \<Rightarrow> Inl (AttributeError ''user_room_id'')
               | Some uid \<Rightarrow>
                   (let collaborator_to_send1 =
                          AList.update ''userRoomId'' (JStr uid) collaborator_to_send;
                        w1 = w\<lparr>log_records := bulk_create_records records (log_records w)\<rparr>
                    in Inr (send_event self eventtype (ChangesArgs [collaborator_to_send1]) w1))))))"

subsection \<open>\<^verbatim>\<open>elements_changed\<close> and \<^verbatim>\<open>full_sync\<close>\<close>

text \<open>
  \<^verbatim>\<open>elements_changed\<close> builds its record without \<^verbatim>\<open>created_at\<close>. Modelled from the
  spec: the default of that field (declared in \<^verbatim>\<open>collab/models.py\<close>) is the
  server time of receipt, the parameter \<open>now\<close>.
\<close>

definition elements_changed ::
  "timestamp \<Rightarrow> consumer \<Rightarrow> string \<Rightarrow> string \<Rightarrow> element list \<Rightarrow> dict \<Rightarrow> world \<Rightarrow> py_error + world" where
  "elements_changed now self room_name eventtype elements kwargs w =
     (case c_user_room_id self of
        None \<Rightarrow> Inl (AttributeError ''user_room_id'')
      | Some uid \<Rightarrow>
          (let record = \<lparr>lr_id = 0, lr_room_name = room_name, event_type = eventtype,
                         user_pseudonym = uid, created_at = Some now,
                         lr_content = ElementsContent elements\<rparr>;
               w1 = send_event self eventtype (ElementsArgs (ElementsContent elements) kwargs) w
           in Inr (w1\<lparr>log_records := save_record record (log_records w1)\<rparr>)))"

text \<open>\<^verbatim>\<open>full_sync\<close>: the call to \<^verbatim>\<open>save_room\<close> is commented out in the source.\<close>

definition full_sync ::
  "timestamp \<Rightarrow> consumer \<Rightarrow> string \<Rightarrow> string \<Rightarrow> element list \<Rightarrow> dict \<Rightarrow> world \<Rightarrow> py_error + world" where
  "full_sync now self room_name eventtype elements kwargs w =
     elements_changed now self room_name eventtype elements kwargs w"

text \<open>\<^verbatim>\<open>save_room\<close> as a handler of the session: it works on the room table only.\<close>

definition save_room_event :: "string \<Rightarrow> element list \<Rightarrow> world \<Rightarrow> world" where
  "save_room_event room_name elements w = w\<lparr>rooms := snd (save_room (rooms w) room_name elements)\<rparr>"



section \<open>The replay session\<close>

text \<open>
  \<^verbatim>\<open>get_log_record_ids_for_room\<close>: the query
  \<^verbatim>\<open>filter(room_name=room_name).order_by('id').values_list('id')\<close> on the log table.
\<close>

definition get_log_record_ids_for_room :: "log_record list \<Rightarrow> string \<Rightarrow> nat list" where
  "get_log_record_ids_for_room recs room_name =
     map lr_id (sort_key lr_id (filter (\<lambda>r. lr_room_name r = room_name) recs))"

text \<open>\<^verbatim>\<open>get_log_record(pk=log_id)\<close>: \<^verbatim>\<open>objects.get\<close> raises \<^verbatim>\<open>DoesNotExist\<close> when no row has the key.\<close>

definition get_log_record :: "log_record list \<Rightarrow> nat \<Rightarrow> py_error + log_record" where
  "get_log_record recs pk =
     (case find (\<lambda>r. lr_id r = pk) recs of None \<Rightarrow> Inl (DoesNotExist pk) | Some r \<Rightarrow> Inr r)"

text \<open>
  One \<^verbatim>\<open>ReplayConsumer\<close> once \<^verbatim>\<open>init_replay\<close> has run: the room of its URL, the ids still
  to play, the \<^verbatim>\<open>defaultdict\<close> of display names with the number of names drawn from
  \<^verbatim>\<open>Faker\<close> so far, whether a replay task has been created, and what it has sent to its
  client with \<^verbatim>\<open>send_json\<close>, in order.
\<close>

record replay_consumer =
  rp_room_name :: string
  log_record_ids :: "nat list"
  encountered_user_pseudonyms :: "(string \<times> string) list"
  faker_calls :: nat
  replay_task :: bool
  rp_sent :: "notification list"

definition rp_send_json :: "notification \<Rightarrow> replay_consumer \<Rightarrow> replay_consumer" where
  "rp_send_json n rc = rc\<lparr>rp_sent := rp_sent rc @ [n]\<rparr>"

text \<open>
  \<^verbatim>\<open>self.encountered_user_pseudonyms[p]\<close>, a \<^verbatim>\<open>defaultdict(self.faker.name)\<close>: a key not
  yet met draws the next name from the generator (the parameter \<open>faker_name\<close>, by the
  number of the draw) and keeps it.
\<close>

definition pseudonym_name ::
  "(nat \<Rightarrow> string) \<Rightarrow> string \<Rightarrow> replay_consumer \<Rightarrow> string \<times> replay_consumer" where
  "pseudonym_name faker_name p rc =
     (case map_of (encountered_user_pseudonyms rc) p of
        Some n \<Rightarrow> (n, rc)
      | None \<Rightarrow>
          (let n = faker_name (faker_calls rc) in
           (n, rc\<lparr>encountered_user_pseudonyms := encountered_user_pseudonyms rc @ [(p, n)],
                   faker_calls := Suc (faker_calls rc)\<rparr>)))"

text \<open>
  Lines 271 to 284 of \<^verbatim>\<open>send_next_event\<close>: the event a fetched record is replayed as.
  \<^verbatim>\<open>**record.content\<close> raises \<^verbatim>\<open>TypeError\<close> when the content is not a dict; a record of
  any other event type sends nothing.
\<close>

definition emit_record ::
  "(nat \<Rightarrow> string) \<Rightarrow> log_record \<Rightarrow> replay_consumer \<Rightarrow> py_error + replay_consumer" where
  "emit_record faker_name record rc =
     (if event_type record \<in> {''full_sync'', ''elements_changed''} then
        Inr (rp_send_json
               \<lparr>n_eventtype = event_type record, n_args = ElementsArgs (lr_content record) []\<rparr> rc)
      else if event_type record = ''collaborator_change'' then
        (case lr_content record of
           ElementsContent els \<Rightarrow> Inl TypeError
         | ChangeContent change \<Rightarrow>
             (case pseudonym_name faker_name (user_pseudonym record) rc of
                (name, rc1) \<Rightarrow>
                  Inr (rp_send_json
                         \<lparr>n_eventtype = ''collaborator_change'',
                          n_args = ChangesArgs
                            [AList.update ''userRoomId'' (JStr (user_pseudonym record))
                               (AList.update ''username'' (JStr name) change)]\<rparr> rc1)))
      else Inr rc)"

text \<open>\<^verbatim>\<open>send_next_event\<close>: \<^verbatim>\<open>pop(0)\<close> raises \<^verbatim>\<open>IndexError\<close> on an empty list.\<close>

definition send_next_event ::
  "(nat \<Rightarrow> string) \<Rightarrow> log_record list \<Rightarrow> replay_consumer \<Rightarrow> py_error + replay_consumer" where
  "send_next_event faker_name recs rc =
     (case log_record_ids rc of
        [] \<Rightarrow> Inl IndexError
      | log_id # ids \<Rightarrow>
          (case get_log_record recs log_id of
             Inl err \<Rightarrow> Inl err
           | Inr record \<Rightarrow> emit_record faker_name record (rc\<lparr>log_record_ids := ids\<rparr>)))"

text \<open>
  \<^verbatim>\<open>wait_then_send\<close>, run to its end without a cancellation: after one event and the
  pause of \<^verbatim>\<open>BROADCAST_RESOLUTION\<close> it creates the task that runs it again. An
  exception ends the task.
\<close>

function wait_then_send ::
  "(nat \<Rightarrow> string) \<Rightarrow> log_record list \<Rightarrow> replay_consumer \<Rightarrow> py_error + replay_consumer" where
  "wait_then_send faker_name recs rc =
     (if log_record_ids rc \<noteq> [] then
        (case send_next_event faker_name recs rc of
           Inl err \<Rightarrow> Inl err
         | Inr rc1 \<Rightarrow> wait_then_send faker_name recs (rc1\<lparr>replay_task := True\<rparr>))
      else Inr (rp_send_json \<lparr>n_eventtype = ''pause_replay'', n_args = NoArgs\<rparr> rc))"
  by pat_completeness auto

text \<open>\<^verbatim>\<open>init_replay\<close>: the id list is fetched and \<^verbatim>\<open>reset_scene\<close> is sent.\<close>

definition init_replay :: "log_record list \<Rightarrow> replay_consumer \<Rightarrow> replay_consumer" where
  "init_replay recs rc =
     rp_send_json \<lparr>n_eventtype = ''reset_scene'', n_args = NoArgs\<rparr>
       (rc\<lparr>log_record_ids := get_log_record_ids_for_room recs (rp_room_name rc)\<rparr>)"

text \<open>
  The replay order in the words of the specification: the records of a list are emitted
  one after the other, first to last, and \<^verbatim>\<open>pause_replay\<close> ends the replay. It is compared
  below with \<^const>\<open>wait_then_send\<close> on the room's records in ascending order of their id.
\<close>

fun replay_in_order ::
  "(nat \<Rightarrow> string) \<Rightarrow> log_record list \<Rightarrow> replay_consumer \<Rightarrow> py_error + replay_consumer" where
  "replay_in_order faker_name [] rc =
     Inr (rp_send_json \<lparr>n_eventtype = ''pause_replay'', n_args = NoArgs\<rparr> (rc\<lparr>log_record_ids := []\<rparr>))"
| "replay_in_order faker_name (record # records) rc =
     (case emit_record faker_name record rc of
        Inl err \<Rightarrow> Inl err
      | Inr rc1 \<Rightarrow> replay_in_order faker_name records (rc1\<lparr>replay_task := True\<rparr>))"

section \<open>Termination of the playback loop\<close>

lemma emit_record_ids:
  "emit_record faker_name record rc = Inr rc1 \<Longrightarrow> log_record_ids rc1 = log_record_ids rc"
  by (auto simp: emit_record_def rp_send_json_def pseudonym_name_def Let_def
      split: if_splits record_content.splits option.splits)

lemma send_next_event_ids:
  "send_next_event faker_name recs rc = Inr rc1 \<Longrightarrow>
     \<exists>log_id. log_record_ids rc = log_id # log_record_ids rc1"
  by (auto simp: send_next_event_def split: list.splits sum.splits dest: emit_record_ids)

termination wait_then_send
proof (relation "measure (\<lambda>(faker_name, recs, rc). length (log_record_ids rc))")
  show "wf (measure (\<lambda>(faker_name, recs, rc). length (log_record_ids rc)))" by simp
next
  fix faker_name :: "nat \<Rightarrow> string" and recs rc rc1
  assume "send_next_event faker_name recs rc = Inr rc1"
  then obtain log_id where "log_record_ids rc = log_id # log_record_ids rc1"
    using send_next_event_ids by blast
  then show "((faker_name, recs, rc1\<lparr>replay_task := True\<rparr>), (faker_name, recs, rc))
      \<in> measure (\<lambda>(faker_name, recs, rc). length (log_record_ids rc))"
    by simp
qed

declare wait_then_send.simps [simp del]

section \<open>Properties of the reconciler\<close>

lemma check_versions_stale:
  "e \<in> set es \<Longrightarrow> old_version_of versions e > version e \<Longrightarrow> check_versions versions es d = None"
  by (induction es arbitrary: d) (auto simp: Let_def)

lemma check_versions_not_older:
  "check_versions versions es d = Some d' \<Longrightarrow> e \<in> set es \<Longrightarrow> old_version_of versions e \<le> version e"
  by (induction es arbitrary: d) (auto simp: Let_def split: if_splits)

lemma fold_versions_Some:
  "fold (\<lambda>e m. m(el_id e \<mapsto> version e)) els m i = Some w \<Longrightarrow>
     m i = Some w \<or> (\<exists>e\<in>set els. el_id e = i \<and> version e = w)"
proof (induction els arbitrary: m)
  case Nil
  then show ?case by simp
next
  case (Cons a els)
  from Cons.prems have "fold (\<lambda>e m. m(el_id e \<mapsto> version e)) els (m(el_id a \<mapsto> version a)) i = Some w"
    by (simp del: fun_upd_apply)
  from Cons.IH [OF this] show ?case by (auto split: if_splits)
qed

lemma old_room_versions_Some:
  "old_room_versions els i = Some w \<Longrightarrow> \<exists>e\<in>set els. el_id e = i \<and> version e = w"
  using fold_versions_Some [of els Map.empty i w] by (simp add: old_room_versions_def)

lemma save_room_fresh:
  "db room_name = None \<Longrightarrow>
     save_room db room_name elements = (NoDifference, db(room_name \<mapsto> new_room_elements))"
  by (simp add: save_room_def get_or_create_room_def)

lemma save_room_existing:
  "db room_name = Some old \<Longrightarrow>
     save_room db room_name elements =
       (case check_versions (old_room_versions old) (filter (\<lambda>e. \<not> is_deleted e) elements) False of
          None \<Rightarrow> (Stale, db)
        | Some d \<Rightarrow> if d then (Saved, db(room_name \<mapsto> filter (\<lambda>e. \<not> is_deleted e) elements))
                    else (NoDifference, db))"
  by (simp add: save_room_def get_or_create_room_def upsert_room_def Let_def split: option.splits)

lemmas save_room_eval =
  save_room_def get_or_create_room_def upsert_room_def new_room_elements_def
  old_room_versions_def old_version_of_def is_deleted_def persisted_version_def

text \<open>
  C1 (fails on the code). A room that \<^verbatim>\<open>save_room\<close> has just created skips the loop, so
  \<^verbatim>\<open>differences_detected\<close> stays \<^verbatim>\<open>False\<close> and the function returns at line 166: the
  incoming collection is not persisted, the new room keeps its empty collection. The
  general fact is \<open>save_room_fresh\<close>; here the code is run on one element.
\<close>

theorem save_room_fresh_room_not_persisted:
  "save_room Map.empty ''room''
     [\<lparr>el_id = ''A'', version = 1, isDeleted = None, el_fields = []\<rparr>]
   = (NoDifference, [''room'' \<mapsto> []])"
  by (simp add: save_room_eval)

text \<open>
  C2. On an existing room, one incoming element that is not deleted and whose version is
  strictly below the persisted version of its id makes \<^verbatim>\<open>save_room\<close> return at line 161:
  the store is left as it was, so nothing of the incoming collection is persisted, new
  ids included.
\<close>

theorem save_room_stale_rejected:
  assumes "db room_name = Some old_elements"
      and "e \<in> set elements" and "\<not> is_deleted e"
      and "old_room_versions old_elements (el_id e) = Some v" and "version e < v"
  shows "save_room db room_name elements = (Stale, db)"
proof -
  have "e \<in> set (filter (\<lambda>e. \<not> is_deleted e) elements)" using assms by simp
  moreover have "old_version_of (old_room_versions old_elements) e > version e"
    using assms by (simp add: old_version_of_def)
  ultimately have "check_versions (old_room_versions old_elements) (filter (\<lambda>e. \<not> is_deleted e) elements) False = None"
    by (rule check_versions_stale)
  then show ?thesis using assms(1) by (simp add: save_room_existing)
qed

theorem save_room_stale_rejected_witness:
  "save_room
     [''room'' \<mapsto> [\<lparr>el_id = ''A'', version = 5, isDeleted = None, el_fields = []\<rparr>]]
     ''room''
     [\<lparr>el_id = ''A'', version = 4, isDeleted = None, el_fields = []\<rparr>,
      \<lparr>el_id = ''B'', version = 10, isDeleted = None, el_fields = []\<rparr>]
   = (Stale, [''room'' \<mapsto> [\<lparr>el_id = ''A'', version = 5, isDeleted = None, el_fields = []\<rparr>]])"
  using save_room_stale_rejected
    [of "[''room'' \<mapsto> [\<lparr>el_id = ''A'', version = 5, isDeleted = None, el_fields = []\<rparr>]]"
        "''room''" "[\<lparr>el_id = ''A'', version = 5, isDeleted = None, el_fields = []\<rparr>]"
        "\<lparr>el_id = ''A'', version = 4, isDeleted = None, el_fields = []\<rparr>"
        "[\<lparr>el_id = ''A'', version = 4, isDeleted = None, el_fields = []\<rparr>,
          \<lparr>el_id = ''B'', version = 10, isDeleted = None, el_fields = []\<rparr>]" 5]
  by (simp add: old_room_versions_def is_deleted_def)

lemma save_room_other_room:
  "r \<noteq> room_name \<Longrightarrow> snd (save_room db room_name elements) r = db r"
  by (cases "db room_name")
     (auto simp: save_room_fresh save_room_existing upsert_room_def split: option.splits)

lemma save_room_version_step:
  assumes "persisted_version db r i = Some v"
      and "persisted_version (snd (save_room db room_name elements)) r i = Some w"
  shows "v \<le> w"
proof (cases "r = room_name")
  case False
  then show ?thesis using assms by (simp add: persisted_version_def save_room_other_room)
next
  case True
  from assms(1) True obtain old where old: "db room_name = Some old" "old_room_versions old i = Some v"
    by (auto simp: persisted_version_def split: option.splits)
  let ?els = "filter (\<lambda>e. \<not> is_deleted e) elements"
  show ?thesis
  proof (cases "check_versions (old_room_versions old) ?els False")
    case None
    then show ?thesis using assms(2) old True by (simp add: save_room_existing persisted_version_def)
  next
    case (Some d)
    show ?thesis
    proof (cases d)
      case False
      then show ?thesis using assms(2) old True Some by (simp add: save_room_existing persisted_version_def)
    next
      case d: True
      then have "old_room_versions ?els i = Some w"
        using assms(2) old True Some by (simp add: save_room_existing persisted_version_def)
      then obtain e where e: "e \<in> set ?els" "el_id e = i" "version e = w"
        using old_room_versions_Some by blast
      from check_versions_not_older [OF Some e(1)] have "old_version_of (old_room_versions old) e \<le> version e" .
      then show ?thesis using e old by (simp add: old_version_of_def)
    qed
  qed
qed

text \<open>
  C3 as stated fails: on a new room, after the calls with A at version 5 (twice: the
  first only creates the room), B at version 1 and A at version 2, the version persisted
  for A is 5 after the second call, absent after the third and 2 after the fourth.
\<close>

theorem save_room_versions_decrease_counterexample:
  "map (\<lambda>d. persisted_version d ''room'' ''A'')
     (save_room_trace Map.empty
        [(''room'', [\<lparr>el_id = ''A'', version = 5, isDeleted = None, el_fields = []\<rparr>]),
         (''room'', [\<lparr>el_id = ''A'', version = 5, isDeleted = None, el_fields = []\<rparr>]),
         (''room'', [\<lparr>el_id = ''B'', version = 1, isDeleted = None, el_fields = []\<rparr>]),
         (''room'', [\<lparr>el_id = ''A'', version = 2, isDeleted = None, el_fields = []\<rparr>])])
   = [None, None, Some 5, None, Some 2]"
  by (simp add: save_room_eval)

text \<open>
  C3 (as amended). Along any run of \<^verbatim>\<open>save_room\<close> calls, from any store, the versions
  persisted for an element id are non-decreasing over every stretch of the run during
  which the id stays in the snapshot: when every store of the run holds a version for
  the id, these versions are sorted. Once an id has dropped out of the snapshot it may
  come back with any version (the counterexample above).
\<close>

theorem save_room_versions_sorted:
  "map (\<lambda>d. persisted_version d r i) (save_room_trace db calls) = map Some vs \<Longrightarrow> sorted vs"
proof (induction calls arbitrary: db vs)
  case Nil
  then show ?case by (cases vs) auto
next
  case (Cons c calls)
  obtain room_name elements where c: "c = (room_name, elements)" by (cases c)
  let ?db1 = "snd (save_room db room_name elements)"
  from Cons.prems c obtain v vs' where vs: "vs = v # vs'" "persisted_version db r i = Some v"
    and rest: "map (\<lambda>d. persisted_version d r i) (save_room_trace ?db1 calls) = map Some vs'"
    by (cases vs) auto
  have sorted': "sorted vs'" using Cons.IH [OF rest] .
  have "v \<le> x" if x: "x \<in> set vs'" for x
  proof -
    obtain w ws where ws: "vs' = w # ws" using x by (cases vs') auto
    have "persisted_version ?db1 r i = Some w"
      using rest ws by (cases calls) auto
    then have "v \<le> w" using save_room_version_step vs(2) by blast
    moreover have "w \<le> x" using sorted' ws x by auto
    ultimately show ?thesis by simp
  qed
  then show ?case using vs sorted' by simp
qed


theorem save_room_versions_sorted_witness:
  "map (\<lambda>d. persisted_version d ''room'' ''A'')
     (save_room_trace
        [''room'' \<mapsto> [\<lparr>el_id = ''A'', version = 5, isDeleted = None, el_fields = []\<rparr>]]
        [(''room'', [\<lparr>el_id = ''A'', version = 6, isDeleted = None, el_fields = []\<rparr>]),
         (''room'', [\<lparr>el_id = ''A'', version = 6, isDeleted = None, el_fields = []\<rparr>,
                     \<lparr>el_id = ''B'', version = 1, isDeleted = None, el_fields = []\<rparr>])])
   = map Some [5, 6, 6] \<and> sorted [5, 6, 6 :: int]"
proof -
  have h: "map (\<lambda>d. persisted_version d ''room'' ''A'')
     (save_room_trace
        [''room'' \<mapsto> [\<lparr>el_id = ''A'', version = 5, isDeleted = None, el_fields = []\<rparr>]]
        [(''room'', [\<lparr>el_id = ''A'', version = 6, isDeleted = None, el_fields = []\<rparr>]),
         (''room'', [\<lparr>el_id = ''A'', version = 6, isDeleted = None, el_fields = []\<rparr>,
                     \<lparr>el_id = ''B'', version = 1, isDeleted = None, el_fields = []\<rparr>])])
   = map Some [5, 6, 6]"
    by (simp add: save_room_eval)
  from save_room_versions_sorted [OF h] h show ?thesis by simp
qed

text \<open>
  C4 as stated fails: with A persisted at version 5, an incoming collection that holds
  only B is accepted and overwrites the snapshot; the id A is lost.
\<close>

theorem save_room_drops_ids_counterexample:
  "save_room
     [''room'' \<mapsto> [\<lparr>el_id = ''A'', version = 5, isDeleted = None, el_fields = []\<rparr>]]
     ''room''
     [\<lparr>el_id = ''B'', version = 1, isDeleted = None, el_fields = []\<rparr>]
   = (Saved, [''room'' \<mapsto> [\<lparr>el_id = ''B'', version = 1, isDeleted = None, el_fields = []\<rparr>]])
   \<and> \<not> el_id ` set [\<lparr>el_id = ''A'', version = 5, isDeleted = None, el_fields = []\<rparr>]
        \<subseteq> el_id ` set [\<lparr>el_id = ''B'', version = 1, isDeleted = None, el_fields = []\<rparr>]"
  by (simp add: save_room_eval)

text \<open>
  C4 (as amended). When \<^verbatim>\<open>save_room\<close> accepts the write, the persisted snapshot of the room
  is exactly the incoming collection without its deleted elements: the ids persisted
  afterwards are those of the incoming elements that are not deleted, whatever was
  persisted before.
\<close>

theorem save_room_saved_snapshot:
  assumes "fst (save_room db room_name elements) = Saved"
  shows "snd (save_room db room_name elements) room_name
           = Some (filter (\<lambda>e. \<not> is_deleted e) elements)"
proof (cases "db room_name")
  case None
  then show ?thesis using assms by (simp add: save_room_fresh)
next
  case (Some old)
  then show ?thesis using assms
    by (auto simp: save_room_existing split: option.splits if_splits)
qed

theorem save_room_saved_snapshot_witness:
  "fst (save_room
     [''room'' \<mapsto> [\<lparr>el_id = ''A'', version = 5, isDeleted = None, el_fields = []\<rparr>]]
     ''room''
     [\<lparr>el_id = ''B'', version = 1, isDeleted = None, el_fields = []\<rparr>,
      \<lparr>el_id = ''C'', version = 1, isDeleted = Some True, el_fields = []\<rparr>]) = Saved
   \<and> snd (save_room
     [''room'' \<mapsto> [\<lparr>el_id = ''A'', version = 5, isDeleted = None, el_fields = []\<rparr>]]
     ''room''
     [\<lparr>el_id = ''B'', version = 1, isDeleted = None, el_fields = []\<rparr>,
      \<lparr>el_id = ''C'', version = 1, isDeleted = Some True, el_fields = []\<rparr>]) ''room''
     = Some [\<lparr>el_id = ''B'', version = 1, isDeleted = None, el_fields = []\<rparr>]"
proof -
  have h: "fst (save_room
     [''room'' \<mapsto> [\<lparr>el_id = ''A'', version = 5, isDeleted = None, el_fields = []\<rparr>]]
     ''room''
     [\<lparr>el_id = ''B'', version = 1, isDeleted = None, el_fields = []\<rparr>,
      \<lparr>el_id = ''C'', version = 1, isDeleted = Some True, el_fields = []\<rparr>]) = Saved"
    by (simp add: save_room_eval)
  from save_room_saved_snapshot [OF h] h show ?thesis by (simp add: is_deleted_def)
qed

lemma tombstone_free_empty: "tombstone_free Map.empty"
  by (simp add: tombstone_free_def)

lemma tombstone_free_get_or_create:
  "tombstone_free db \<Longrightarrow> tombstone_free (snd (get_or_create_room db room_name))"
  by (auto simp: tombstone_free_def get_or_create_room_def new_room_elements_def split: option.splits if_splits)

lemma tombstone_free_save_room:
  "tombstone_free db \<Longrightarrow> tombstone_free (snd (save_room db room_name elements))"
  by (cases "db room_name")
     (auto simp: tombstone_free_def save_room_fresh save_room_existing new_room_elements_def
           split: option.splits if_splits)

lemma tombstone_free_fold:
  "tombstone_free db \<Longrightarrow> tombstone_free (fold apply_store_op ops db)"
proof (induction ops arbitrary: db)
  case Nil
  then show ?case by simp
next
  case (Cons op ops)
  have "tombstone_free (apply_store_op op db)"
    using Cons.prems by (cases op) (simp_all add: tombstone_free_get_or_create tombstone_free_save_room)
  then show ?case using Cons.IH by simp
qed

lemma save_room_room_exists:
  "\<exists>snapshot. snd (save_room db room_name elements) room_name = Some snapshot"
  by (cases "db room_name")
     (auto simp: save_room_fresh save_room_existing split: option.splits if_splits)

text \<open>
  C5. In every store that getting or creating rooms and \<^verbatim>\<open>save_room\<close> calls can build
  from the empty table, after any further \<^verbatim>\<open>save_room\<close> call the room has a snapshot and
  no incoming element with \<^verbatim>\<open>isDeleted\<close> true is in it; this covers the call that creates
  the room.
\<close>

theorem save_room_never_persists_deleted:
  assumes "e \<in> set elements" and "isDeleted e = Some True"
  shows "\<exists>snapshot. snd (save_room (run_store_ops history) room_name elements) room_name = Some snapshot
           \<and> e \<notin> set snapshot"
proof -
  have "tombstone_free (run_store_ops history)"
    unfolding run_store_ops_def by (rule tombstone_free_fold [OF tombstone_free_empty])
  then have free: "tombstone_free (snd (save_room (run_store_ops history) room_name elements))"
    by (rule tombstone_free_save_room)
  obtain snapshot where snap: "snd (save_room (run_store_ops history) room_name elements) room_name = Some snapshot"
    using save_room_room_exists by blast
  have "is_deleted e" using assms(2) by (simp add: is_deleted_def)
  then have "e \<notin> set snapshot" using free snap by (auto simp: tombstone_free_def)
  then show ?thesis using snap by blast
qed

theorem save_room_never_persists_deleted_witness:
  "\<lparr>el_id = ''C'', version = 1, isDeleted = Some True, el_fields = []\<rparr>
     \<in> set [\<lparr>el_id = ''C'', version = 1, isDeleted = Some True, el_fields = []\<rparr>]
   \<and> (\<exists>snapshot. snd (save_room (run_store_ops []) ''room''
          [\<lparr>el_id = ''C'', version = 1, isDeleted = Some True, el_fields = []\<rparr>]) ''room'' = Some snapshot
        \<and> \<lparr>el_id = ''C'', version = 1, isDeleted = Some True, el_fields = []\<rparr> \<notin> set snapshot)"
  using save_room_never_persists_deleted
    [of "\<lparr>el_id = ''C'', version = 1, isDeleted = Some True, el_fields = []\<rparr>"
        "[\<lparr>el_id = ''C'', version = 1, isDeleted = Some True, el_fields = []\<rparr>]" "[]" "''room''"]
  by simp

section \<open>Properties of the sessions\<close>

lemma notify_fold:
  "fold (\<lambda>channel. notify_client channel event) chs w =
     w\<lparr>client_inbox := client_inbox w @
          map (\<lambda>channel. (channel, e_notification event)) (filter (\<lambda>channel. channel \<noteq> e_sender event) chs)\<rparr>"
proof (induction chs arbitrary: w)
  case Nil
  then show ?case by simp
next
  case (Cons c chs)
  have "fold (\<lambda>channel. notify_client channel event) (c # chs) w =
          fold (\<lambda>channel. notify_client channel event) chs (notify_client c event w)"
    by simp
  also have "\<dots> = (notify_client c event w)\<lparr>client_inbox := client_inbox (notify_client c event w) @
          map (\<lambda>channel. (channel, e_notification event)) (filter (\<lambda>channel. channel \<noteq> e_sender event) chs)\<rparr>"
    by (rule Cons.IH)
  also have "\<dots> = w\<lparr>client_inbox := client_inbox w @
          map (\<lambda>channel. (channel, e_notification event)) (filter (\<lambda>channel. channel \<noteq> e_sender event) (c # chs))\<rparr>"
    by (simp add: notify_client_def send_json_def)
  finally show ?case .
qed

lemma send_event_world:
  "send_event self eventtype event_args w =
     w\<lparr>client_inbox := client_inbox w @
          map (\<lambda>channel. (channel, \<lparr>n_eventtype = eventtype, n_args = event_args\<rparr>))
            (filter (\<lambda>channel. channel \<noteq> c_channel_name self) (groups w (group_name self)))\<rparr>"
  by (simp add: send_event_def group_send_def notify_fold)

lemma delivered_map:
  "distinct chs \<Longrightarrow>
     map snd (filter (\<lambda>(c, n). c = channel) (map (\<lambda>c. (c, note)) chs)) =
       (if channel \<in> set chs then [note] else [])"
  by (induction chs) auto

text \<open>
  C8. When a session broadcasts an event with \<^verbatim>\<open>send_event\<close>, what each session sends on
  to its own client grows as follows: a session registered in the room's group other
  than the sender sends exactly the notification; the sender sends nothing, and so does
  a session that is not registered. Each receiving session decides this by comparing the
  sender of the message with its own channel name (\<^const>\<open>notify_client\<close>). A group holds a
  channel name once.
\<close>

theorem send_event_echo_suppression:
  assumes "distinct (groups w (group_name self))"
  shows "delivered_to channel (send_event self eventtype event_args w) =
           delivered_to channel w @
             (if channel \<in> set (groups w (group_name self)) \<and> channel \<noteq> c_channel_name self
              then [\<lparr>n_eventtype = eventtype, n_args = event_args\<rparr>] else [])"
proof -
  let ?peers = "filter (\<lambda>c. c \<noteq> c_channel_name self) (groups w (group_name self))"
  have "distinct ?peers" using assms by simp
  from delivered_map [OF this, of channel "\<lparr>n_eventtype = eventtype, n_args = event_args\<rparr>"]
  show ?thesis
    by (simp add: delivered_to_def send_event_world)
qed

theorem send_event_echo_suppression_witness:
  "delivered_to ''a''
     (send_event \<lparr>c_channel_name = ''a'', c_room_name = ''r'', c_user = \<lparr>u_id = None, u_username = ''''\<rparr>, c_user_room_id = Some ''p''\<rparr> ''elements_changed'' NoArgs
        \<lparr>rooms = Map.empty, log_records = [],
        groups = (\<lambda>g. [])(''draw_room_r'' := [''a'', ''b'']),
        client_inbox = [],
        accepted = [], closed = []\<rparr>) = []
   \<and> delivered_to ''b''
     (send_event \<lparr>c_channel_name = ''a'', c_room_name = ''r'', c_user = \<lparr>u_id = None, u_username = ''''\<rparr>, c_user_room_id = Some ''p''\<rparr> ''elements_changed'' NoArgs
        \<lparr>rooms = Map.empty, log_records = [],
        groups = (\<lambda>g. [])(''draw_room_r'' := [''a'', ''b'']),
        client_inbox = [],
        accepted = [], closed = []\<rparr>) = [\<lparr>n_eventtype = ''elements_changed'', n_args = NoArgs\<rparr>]"
  using send_event_echo_suppression
      [of "\<lparr>rooms = Map.empty, log_records = [],
  groups = (\<lambda>g. [])(''draw_room_r'' := [''a'', ''b'']),
  client_inbox = [],
  accepted = [], closed = []\<rparr>"
          "\<lparr>c_channel_name = ''a'', c_room_name = ''r'', c_user = \<lparr>u_id = None, u_username = ''''\<rparr>, c_user_room_id = Some ''p''\<rparr>" "''a''" "''elements_changed''" NoArgs]
    send_event_echo_suppression
      [of "\<lparr>rooms = Map.empty, log_records = [],
  groups = (\<lambda>g. [])(''draw_room_r'' := [''a'', ''b'']),
  client_inbox = [],
  accepted = [], closed = []\<rparr>"
          "\<lparr>c_channel_name = ''a'', c_room_name = ''r'', c_user = \<lparr>u_id = None, u_username = ''''\<rparr>, c_user_room_id = Some ''p''\<rparr>" "''b''" "''elements_changed''" NoArgs]
  by (simp add: group_name_def channel_prefix_def delivered_to_def)

lemma group_add_distinct:
  "distinct (groups w g') \<Longrightarrow> distinct (groups (group_add g channel w) g')"
  by (auto simp: group_add_def)

lemma group_discard_distinct:
  "distinct (groups w g') \<Longrightarrow> distinct (groups (group_discard g channel w) g')"
  by (auto simp: group_discard_def distinct_removeAll)

text \<open>
  C9. With anonymous visits disabled, a connection attempt of a user who is neither
  authenticated nor authorized succeeds as a call, leaves the session without
  \<^verbatim>\<open>user_room_id\<close>, sends exactly one notification, \<^verbatim>\<open>login_required\<close>, to that client and
  nothing to any other client (so no \<^verbatim>\<open>collaborator_left\<close> reaches a peer), ends the
  connection with close code 3000, and changes neither the groups nor the log.
\<close>

theorem connect_rejected:
  assumes "\<not> allow_anonymous_visits" and "\<not> authenticated" and "\<not> authorized"
  shows "\<exists>w'. connect allow_anonymous_visits authenticated authorized pseudonym self w = Inr (self, w')
           \<and> client_inbox w' = client_inbox w @
                [(c_channel_name self, \<lparr>n_eventtype = ''login_required'', n_args = NoArgs\<rparr>)]
           \<and> closed w' = closed w @ [(c_channel_name self, 3000)]
           \<and> groups w' = groups w
           \<and> log_records w' = log_records w"
  using assms
  by (simp add: connect_def disconnect_def base_connect_def base_disconnect_def send_json_def Let_def)

theorem connect_rejected_witness:
  "\<exists>w'. connect False False False ''p'' \<lparr>c_channel_name = ''c'', c_room_name = ''r'', c_user = \<lparr>u_id = None, u_username = ''''\<rparr>, c_user_room_id = None\<rparr>
          \<lparr>rooms = Map.empty, log_records = [],
          groups = (\<lambda>g. [])(''draw_room_r'' := [''a'', ''b'']),
          client_inbox = [],
          accepted = [], closed = []\<rparr> = Inr (\<lparr>c_channel_name = ''c'', c_room_name = ''r'', c_user = \<lparr>u_id = None, u_username = ''''\<rparr>, c_user_room_id = None\<rparr>, w')
      \<and> client_inbox w' = [(''c'', \<lparr>n_eventtype = ''login_required'', n_args = NoArgs\<rparr>)]
      \<and> closed w' = [(''c'', 3000)]
      \<and> groups w' = (\<lambda>g. [])(''draw_room_r'' := [''a'', ''b''])
      \<and> log_records w' = []"
  using connect_rejected
      [of False False False "''p''" "\<lparr>c_channel_name = ''c'', c_room_name = ''r'', c_user = \<lparr>u_id = None, u_username = ''''\<rparr>, c_user_room_id = None\<rparr>"
          "\<lparr>rooms = Map.empty, log_records = [],
  groups = (\<lambda>g. [])(''draw_room_r'' := [''a'', ''b'']),
  client_inbox = [],
  accepted = [], closed = []\<rparr>"]
  by simp

text \<open>
  C6. \<^verbatim>\<open>full_sync\<close> does what \<^verbatim>\<open>elements_changed\<close> does with the same arguments (the event
  type it is given included). For an admitted session it returns, the room table is
  unchanged (\<^verbatim>\<open>save_room\<close> is not run), exactly one record with the element collection is
  appended to the log, and exactly one notification with the collection goes to every
  registered session but the sender.
\<close>

theorem full_sync_is_elements_changed:
  assumes "c_user_room_id self = Some uid"
  shows "full_sync now self room_name eventtype elements kwargs w =
           elements_changed now self room_name eventtype elements kwargs w
         \<and> (\<exists>w'. full_sync now self room_name eventtype elements kwargs w = Inr w'
              \<and> rooms w' = rooms w
              \<and> log_records w' = log_records w @
                   [\<lparr>lr_id = next_id (log_records w), lr_room_name = room_name,
                     event_type = eventtype, user_pseudonym = uid, created_at = Some now,
                     lr_content = ElementsContent elements\<rparr>]
              \<and> client_inbox w' = client_inbox w @
                   map (\<lambda>channel. (channel,
                          \<lparr>n_eventtype = eventtype,
                           n_args = ElementsArgs (ElementsContent elements) kwargs\<rparr>))
                     (filter (\<lambda>channel. channel \<noteq> c_channel_name self) (groups w (group_name self))))"
  using assms
  by (simp add: full_sync_def elements_changed_def send_event_world save_record_def Let_def)

theorem full_sync_is_elements_changed_witness:
  "full_sync 7 \<lparr>c_channel_name = ''a'', c_room_name = ''r'', c_user = \<lparr>u_id = None, u_username = ''''\<rparr>, c_user_room_id = Some ''p''\<rparr> ''r'' ''full_sync'' [\<lparr>el_id = ''A'', version = 1, isDeleted = None, el_fields = []\<rparr>] []
       \<lparr>rooms = Map.empty, log_records = [],
       groups = (\<lambda>g. [])(''draw_room_r'' := [''a'', ''b'']),
       client_inbox = [],
       accepted = [], closed = []\<rparr>
     = Inr \<lparr>rooms = Map.empty, log_records = [\<lparr>lr_id = 1, lr_room_name = ''r'', event_type = ''full_sync'', user_pseudonym = ''p'', created_at = Some 7, lr_content = ElementsContent [\<lparr>el_id = ''A'', version = 1, isDeleted = None, el_fields = []\<rparr>]\<rparr>],
           groups = (\<lambda>g. [])(''draw_room_r'' := [''a'', ''b'']),
           client_inbox = [(''b'', \<lparr>n_eventtype = ''full_sync'', n_args = ElementsArgs (ElementsContent [\<lparr>el_id = ''A'', version = 1, isDeleted = None, el_fields = []\<rparr>]) []\<rparr>)],
           accepted = [], closed = []\<rparr>"
  using full_sync_is_elements_changed
      [of "\<lparr>c_channel_name = ''a'', c_room_name = ''r'', c_user = \<lparr>u_id = None, u_username = ''''\<rparr>, c_user_room_id = Some ''p''\<rparr>" "''p''" 7 "''r''" "''full_sync''" "[\<lparr>el_id = ''A'', version = 1, isDeleted = None, el_fields = []\<rparr>]" "[]"
          "\<lparr>rooms = Map.empty, log_records = [],
  groups = (\<lambda>g. [])(''draw_room_r'' := [''a'', ''b'']),
  client_inbox = [],
  accepted = [], closed = []\<rparr>"]
  by (simp add: full_sync_def elements_changed_def send_event_world save_record_def
        group_name_def channel_prefix_def next_id_def)

subsection \<open>Collaborator changes\<close>

lemma change_records_contents:
  "change_records parse_datetime now self room_name eventtype changes = Inr records \<Longrightarrow>
     map lr_content records =
       map (\<lambda>c. ChangeContent (AList.delete ''time'' (AList.delete ''username'' c))) changes"
proof (induction changes arbitrary: records)
  case Nil
  then show ?case by simp
next
  case (Cons c changes)
  then show ?case
    by (auto simp: Let_def split: if_splits sum.splits option.splits)
qed

lemma change_records_username:
  "change_records parse_datetime now self room_name eventtype changes = Inr records \<Longrightarrow>
     c \<in> set changes \<Longrightarrow> ''username'' \<in> fst ` set c"
proof (induction changes arbitrary: records)
  case Nil
  then show ?case by simp
next
  case (Cons d changes)
  then show ?case
    by (auto simp: Let_def split: if_splits sum.splits option.splits)
qed

lemma fold_save_record:
  "\<exists>saved. fold save_record records recs = recs @ saved \<and> map lr_content saved = map lr_content records"
proof (induction records arbitrary: recs)
  case Nil
  then show ?case by simp
next
  case (Cons r records)
  obtain saved where saved: "fold save_record records (save_record r recs) = save_record r recs @ saved"
    "map lr_content saved = map lr_content records"
    using Cons.IH by blast
  have "fold save_record (r # records) recs = recs @ (r\<lparr>lr_id := next_id recs\<rparr> # saved)"
    using saved(1) by (simp add: save_record_def)
  moreover have "map lr_content (r\<lparr>lr_id := next_id recs\<rparr> # saved) = map lr_content (r # records)"
    using saved(2) by simp
  ultimately show ?case by blast
qed

lemma deleted_key_absent: "k \<notin> fst ` set (AList.delete k' (AList.delete k al))"
  by (auto simp: AList.delete_eq)

lemma map_of_update_other: "k \<noteq> k' \<Longrightarrow> map_of (AList.update k v al) k' = map_of al k'"
  by (simp add: AList.update_conv')

text \<open>
  The handler returns for an admitted session on a batch that is not empty, when every
  change has a \<^verbatim>\<open>username\<close> key and a \<^verbatim>\<open>time\<close> that is absent, falsy or parsed without an
  exception.
\<close>

lemma change_records_returns:
  assumes "c_user_room_id self = Some uid"
      and "\<forall>c\<in>set changes. ''username'' \<in> fst ` set c
             \<and> (\<exists>t. change_time parse_datetime now (map_of (AList.delete ''username'' c) ''time'') = Inr t)"
  shows "\<exists>records. change_records parse_datetime now self room_name eventtype changes = Inr records"
  using assms by (induction changes) (auto simp: Let_def)

lemma collaborator_change_returns:
  assumes "c_user_room_id self = Some uid" and "changes \<noteq> []"
      and "\<forall>c\<in>set changes. ''username'' \<in> fst ` set c
             \<and> (\<exists>t. change_time parse_datetime now (map_of (AList.delete ''username'' c) ''time'') = Inr t)"
  shows "\<exists>w'. collaborator_change parse_datetime now self room_name eventtype changes w = Inr w'"
proof -
  obtain records where "change_records parse_datetime now self room_name eventtype changes = Inr records"
    using change_records_returns [OF assms(1) assms(3)] by blast
  then show ?thesis using assms(1,2) by (simp add: collaborator_change_def Let_def)
qed

text \<open>
  C7 as stated fails: the notification sent to the peers is built from a copy of the last
  change taken before \<^verbatim>\<open>username\<close> is deleted, so it still carries the name the client
  supplied. One change with \<^verbatim>\<open>username\<close> alice, sent by the session of channel a, reaches
  the peer b with \<^verbatim>\<open>username\<close> alice next to \<^verbatim>\<open>userRoomId\<close>; the record in the log has no
  \<^verbatim>\<open>username\<close>.
\<close>

theorem collaborator_change_broadcasts_username_counterexample:
  "collaborator_change (\<lambda>s. Inr None) 7 \<lparr>c_channel_name = ''a'', c_room_name = ''r'', c_user = \<lparr>u_id = None, u_username = ''''\<rparr>, c_user_room_id = Some ''p''\<rparr> ''r'' ''collaborator_change''
       [[(''username'', JStr ''alice''), (''pointer'', JInt 1)]]
       \<lparr>rooms = Map.empty, log_records = [],
       groups = (\<lambda>g. [])(''draw_room_r'' := [''a'', ''b'']),
       client_inbox = [],
       accepted = [], closed = []\<rparr>
     = Inr \<lparr>rooms = Map.empty, log_records = [\<lparr>lr_id = 1, lr_room_name = ''r'', event_type = ''collaborator_change'', user_pseudonym = ''p'', created_at = Some 7, lr_content = ChangeContent [(''pointer'', JInt 1)]\<rparr>],
           groups = (\<lambda>g. [])(''draw_room_r'' := [''a'', ''b'']),
           client_inbox = [(''b'', \<lparr>n_eventtype = ''collaborator_change'', n_args = ChangesArgs [[(''username'', JStr ''alice''), (''pointer'', JInt 1), (''userRoomId'', JStr ''p'')]]\<rparr>)],
           accepted = [], closed = []\<rparr>
   \<and> map_of [(''username'', JStr ''alice''), (''pointer'', JInt 1), (''userRoomId'', JStr ''p'')] ''username''
       = Some (JStr ''alice'')"
  by (simp add: collaborator_change_def send_event_world bulk_create_records_def save_record_def
        next_id_def change_time_def group_name_def channel_prefix_def AList.delete_eq)

text \<open>
  C7 (as amended). Whenever \<^verbatim>\<open>collaborator_change\<close> handles a batch without raising, it
  appends one record per change to the log, holding the change without its \<^verbatim>\<open>username\<close>
  (and \<^verbatim>\<open>time\<close>) key, so no record it persists has a \<^verbatim>\<open>username\<close> key; and it sends
  every registered session but the sender one notification whose single change is the last
  change of the batch as the client sent it, with \<^verbatim>\<open>userRoomId\<close> set to the session's
  pseudonym: it carries \<^verbatim>\<open>userRoomId\<close> and also the \<^verbatim>\<open>username\<close> the client supplied.
\<close>

theorem collaborator_change_effects:
  assumes "collaborator_change parse_datetime now self room_name eventtype changes w = Inr w'"
  shows "\<exists>saved uid.
           log_records w' = log_records w @ saved
         \<and> map lr_content saved =
             map (\<lambda>c. ChangeContent (AList.delete ''time'' (AList.delete ''username'' c))) changes
         \<and> (\<forall>r\<in>set saved. \<forall>c. lr_content r = ChangeContent c \<longrightarrow> ''username'' \<notin> fst ` set c)
         \<and> c_user_room_id self = Some uid
         \<and> client_inbox w' = client_inbox w @
             map (\<lambda>channel. (channel,
                    \<lparr>n_eventtype = eventtype,
                     n_args = ChangesArgs [AList.update ''userRoomId'' (JStr uid) (last changes)]\<rparr>))
               (filter (\<lambda>channel. channel \<noteq> c_channel_name self) (groups w (group_name self)))
         \<and> map_of (AList.update ''userRoomId'' (JStr uid) (last changes)) ''userRoomId'' = Some (JStr uid)
         \<and> map_of (AList.update ''userRoomId'' (JStr uid) (last changes)) ''username''
             = map_of (last changes) ''username''
         \<and> map_of (last changes) ''username'' \<noteq> None"
proof -
  from assms have ne: "changes \<noteq> []"
    by (auto simp: collaborator_change_def split: if_splits)
  from assms ne obtain records uid where
    recs: "change_records parse_datetime now self room_name eventtype changes = Inr records"
    and uid: "c_user_room_id self = Some uid"
    and w': "w' = send_event self eventtype
                (ChangesArgs [AList.update ''userRoomId'' (JStr uid) (last changes)])
                (w\<lparr>log_records := bulk_create_records records (log_records w)\<rparr>)"
    by (auto simp: collaborator_change_def Let_def split: if_splits sum.splits option.splits)
  obtain saved where saved: "bulk_create_records records (log_records w) = log_records w @ saved"
    "map lr_content saved = map lr_content records"
    unfolding bulk_create_records_def using fold_save_record by blast
  have contents: "map lr_content saved =
      map (\<lambda>c. ChangeContent (AList.delete ''time'' (AList.delete ''username'' c))) changes"
    using saved(2) change_records_contents [OF recs] by simp
  have no_name: "\<forall>r\<in>set saved. \<forall>c. lr_content r = ChangeContent c \<longrightarrow> ''username'' \<notin> fst ` set c"
  proof (intro ballI allI impI)
    fix r c assume r: "r \<in> set saved" and c: "lr_content r = ChangeContent c"
    from r have "lr_content r \<in> set (map lr_content saved)" by simp
    then obtain d where "ChangeContent c = ChangeContent (AList.delete ''time'' (AList.delete ''username'' d))"
      unfolding contents c by auto
    then show "''username'' \<notin> fst ` set c" using deleted_key_absent by simp
  qed
  have "last changes \<in> set changes" using ne by simp
  then have "''username'' \<in> fst ` set (last changes)"
    using change_records_username [OF recs] by blast
  then have has_name: "map_of (last changes) ''username'' \<noteq> None"
    by (simp add: map_of_eq_None_iff)
  have log: "log_records w' = log_records w @ saved"
    using w' saved(1) by (simp add: send_event_world)
  have inbox: "client_inbox w' = client_inbox w @
             map (\<lambda>channel. (channel,
                    \<lparr>n_eventtype = eventtype,
                     n_args = ChangesArgs [AList.update ''userRoomId'' (JStr uid) (last changes)]\<rparr>))
               (filter (\<lambda>channel. channel \<noteq> c_channel_name self) (groups w (group_name self)))"
    using w' by (simp add: send_event_world)
  have k1: "map_of (AList.update ''userRoomId'' (JStr uid) (last changes)) ''userRoomId'' = Some (JStr uid)"
    by (simp add: AList.update_conv')
  have k2: "map_of (AList.update ''userRoomId'' (JStr uid) (last changes)) ''username''
             = map_of (last changes) ''username''"
    by (simp add: map_of_update_other)
  from log contents no_name uid inbox k1 k2 has_name show ?thesis by blast
qed

theorem collaborator_change_effects_witness:
  "collaborator_change (\<lambda>s. Inr (Some 3)) 7 \<lparr>c_channel_name = ''a'', c_room_name = ''r'', c_user = \<lparr>u_id = None, u_username = ''''\<rparr>, c_user_room_id = Some ''p''\<rparr> ''r'' ''collaborator_change''
       [[(''username'', JStr ''alice''), (''time'', JStr ''2021''), (''pointer'', JInt 1)],
        [(''pointer'', JInt 2), (''username'', JStr ''alice'')]]
       \<lparr>rooms = Map.empty, log_records = [],
       groups = (\<lambda>g. [])(''draw_room_r'' := [''a'', ''b'']),
       client_inbox = [],
       accepted = [], closed = []\<rparr>
     = Inr \<lparr>rooms = Map.empty, log_records = [\<lparr>lr_id = 1, lr_room_name = ''r'', event_type = ''collaborator_change'', user_pseudonym = ''p'', created_at = Some 3, lr_content = ChangeContent [(''pointer'', JInt 1)]\<rparr>,
          \<lparr>lr_id = 2, lr_room_name = ''r'', event_type = ''collaborator_change'', user_pseudonym = ''p'', created_at = Some 7, lr_content = ChangeContent [(''pointer'', JInt 2)]\<rparr>],
           groups = (\<lambda>g. [])(''draw_room_r'' := [''a'', ''b'']),
           client_inbox = [(''b'', \<lparr>n_eventtype = ''collaborator_change'', n_args = ChangesArgs [[(''pointer'', JInt 2), (''username'', JStr ''alice''), (''userRoomId'', JStr ''p'')]]\<rparr>)],
           accepted = [], closed = []\<rparr>
   \<and> (\<exists>saved. log_records \<lparr>rooms = Map.empty, log_records = [\<lparr>lr_id = 1, lr_room_name = ''r'', event_type = ''collaborator_change'', user_pseudonym = ''p'', created_at = Some 3, lr_content = ChangeContent [(''pointer'', JInt 1)]\<rparr>,
          \<lparr>lr_id = 2, lr_room_name = ''r'', event_type = ''collaborator_change'', user_pseudonym = ''p'', created_at = Some 7, lr_content = ChangeContent [(''pointer'', JInt 2)]\<rparr>],
           groups = (\<lambda>g. [])(''draw_room_r'' := [''a'', ''b'']),
           client_inbox = [(''b'', \<lparr>n_eventtype = ''collaborator_change'', n_args = ChangesArgs [[(''pointer'', JInt 2), (''username'', JStr ''alice''), (''userRoomId'', JStr ''p'')]]\<rparr>)],
           accepted = [], closed = []\<rparr>
         = [] @ saved
       \<and> (\<forall>r\<in>set saved. \<forall>c. lr_content r = ChangeContent c \<longrightarrow> ''username'' \<notin> fst ` set c))
   \<and> map_of (AList.update ''userRoomId'' (JStr ''p'') [(''pointer'', JInt 2), (''username'', JStr ''alice'')]) ''username''
       = Some (JStr ''alice'')"
proof -
  have h: "collaborator_change (\<lambda>s. Inr (Some 3)) 7 \<lparr>c_channel_name = ''a'', c_room_name = ''r'', c_user = \<lparr>u_id = None, u_username = ''''\<rparr>, c_user_room_id = Some ''p''\<rparr> ''r'' ''collaborator_change''
       [[(''username'', JStr ''alice''), (''time'', JStr ''2021''), (''pointer'', JInt 1)],
        [(''pointer'', JInt 2), (''username'', JStr ''alice'')]]
       \<lparr>rooms = Map.empty, log_records = [],
       groups = (\<lambda>g. [])(''draw_room_r'' := [''a'', ''b'']),
       client_inbox = [],
       accepted = [], closed = []\<rparr>
     = Inr \<lparr>rooms = Map.empty, log_records = [\<lparr>lr_id = 1, lr_room_name = ''r'', event_type = ''collaborator_change'', user_pseudonym = ''p'', created_at = Some 3, lr_content = ChangeContent [(''pointer'', JInt 1)]\<rparr>,
          \<lparr>lr_id = 2, lr_room_name = ''r'', event_type = ''collaborator_change'', user_pseudonym = ''p'', created_at = Some 7, lr_content = ChangeContent [(''pointer'', JInt 2)]\<rparr>],
           groups = (\<lambda>g. [])(''draw_room_r'' := [''a'', ''b'']),
           client_inbox = [(''b'', \<lparr>n_eventtype = ''collaborator_change'', n_args = ChangesArgs [[(''pointer'', JInt 2), (''username'', JStr ''alice''), (''userRoomId'', JStr ''p'')]]\<rparr>)],
           accepted = [], closed = []\<rparr>"
    by (simp add: collaborator_change_def send_event_world bulk_create_records_def save_record_def
          next_id_def change_time_def group_name_def channel_prefix_def AList.delete_eq)
  from collaborator_change_effects [OF h] h show ?thesis
    by auto
qed

section \<open>Properties of the replay\<close>

lemma task_ids_commute:
  "rc\<lparr>replay_task := b, log_record_ids := ids\<rparr> = rc\<lparr>log_record_ids := ids, replay_task := b\<rparr>"
  by (cases rc) simp

lemma find_by_id:
  "distinct (map lr_id recs) \<Longrightarrow> r \<in> set recs \<Longrightarrow> find (\<lambda>x. lr_id x = lr_id r) recs = Some r"
  by (induction recs) (auto simp: rev_image_eqI)

lemma emit_record_with_ids:
  "emit_record faker_name record (rc\<lparr>log_record_ids := ids\<rparr>) =
     (case emit_record faker_name record rc of
        Inl err \<Rightarrow> Inl err
      | Inr rc1 \<Rightarrow> Inr (rc1\<lparr>log_record_ids := ids\<rparr>))"
  by (simp add: emit_record_def rp_send_json_def pseudonym_name_def Let_def
      split: record_content.splits option.splits)

lemma wait_then_send_replays:
  "distinct (map lr_id recs) \<Longrightarrow> set records \<subseteq> set recs \<Longrightarrow>
     wait_then_send faker_name recs (rc\<lparr>log_record_ids := map lr_id records\<rparr>) =
       replay_in_order faker_name records rc"
proof (induction records arbitrary: rc)
  case Nil
  then show ?case by (subst wait_then_send.simps) simp
next
  case (Cons r records)
  from Cons.prems have r: "r \<in> set recs" and rest: "set records \<subseteq> set recs" by auto
  have fetch: "get_log_record recs (lr_id r) = Inr r"
    using find_by_id [OF Cons.prems(1) r] by (simp add: get_log_record_def)
  show ?case
  proof (cases "emit_record faker_name r rc")
    case (Inl err)
    then show ?thesis
      by (subst wait_then_send.simps)
         (simp add: send_next_event_def fetch emit_record_with_ids)
  next
    case (Inr rc1)
    have "wait_then_send faker_name recs (rc\<lparr>log_record_ids := map lr_id (r # records)\<rparr>) =
            wait_then_send faker_name recs
              ((rc1\<lparr>replay_task := True\<rparr>)\<lparr>log_record_ids := map lr_id records\<rparr>)"
      by (subst wait_then_send.simps)
         (simp add: send_next_event_def fetch emit_record_with_ids Inr task_ids_commute)
    also have "\<dots> = replay_in_order faker_name records (rc1\<lparr>replay_task := True\<rparr>)"
      by (rule Cons.IH [OF Cons.prems(1) rest])
    finally show ?thesis by (simp add: Inr)
  qed
qed

lemma emit_record_created_at:
  "emit_record faker_name (created_at_update f record) rc = emit_record faker_name record rc"
  by (simp add: emit_record_def split: record_content.splits)

lemma replay_in_order_created_at:
  "replay_in_order faker_name (map (created_at_update f) records) rc =
     replay_in_order faker_name records rc"
  by (induction records arbitrary: rc) (simp_all add: emit_record_created_at split: sum.splits)

lemma insort_key_created_at:
  "insort_key lr_id (created_at_update f r) (map (created_at_update f) rs) =
     map (created_at_update f) (insort_key lr_id r rs)"
  by (induction rs) simp_all

lemma sort_key_created_at:
  "sort_key lr_id (map (created_at_update f) rs) = map (created_at_update f) (sort_key lr_id rs)"
  by (induction rs) (simp_all add: insort_key_created_at)

lemma room_records_created_at:
  "sort_key lr_id (filter (\<lambda>r. lr_room_name r = room_name) (map (created_at_update f) recs)) =
     map (created_at_update f) (sort_key lr_id (filter (\<lambda>r. lr_room_name r = room_name) recs))"
  by (simp add: filter_map o_def sort_key_created_at)

lemma init_replay_replays:
  assumes "distinct (map lr_id recs)"
  shows "wait_then_send faker_name recs (init_replay recs rc) =
           replay_in_order faker_name
             (sort_key lr_id (filter (\<lambda>r. lr_room_name r = rp_room_name rc) recs))
             (rp_send_json \<lparr>n_eventtype = ''reset_scene'', n_args = NoArgs\<rparr> rc)"
proof -
  let ?records = "sort_key lr_id (filter (\<lambda>r. lr_room_name r = rp_room_name rc) recs)"
  have "init_replay recs rc =
          (rp_send_json \<lparr>n_eventtype = ''reset_scene'', n_args = NoArgs\<rparr> rc)
            \<lparr>log_record_ids := map lr_id ?records\<rparr>"
    by (simp add: init_replay_def rp_send_json_def get_log_record_ids_for_room_def)
  moreover have "set ?records \<subseteq> set recs" by auto
  ultimately show ?thesis using wait_then_send_replays [OF assms] by simp
qed

text \<open>
  C10. For a log whose records have distinct ids (the primary key), the playback loop
  started after \<^verbatim>\<open>init_replay\<close> does exactly what emitting the room's records one by one
  in ascending order of their id does, \<^verbatim>\<open>pause_replay\<close> last; the ids of that order are
  sorted; and changing the \<^verbatim>\<open>created_at\<close> values of the log in any way changes nothing
  of the replay.
\<close>

theorem replay_in_ascending_id_order:
  assumes "distinct (map lr_id recs)"
  shows "wait_then_send faker_name recs (init_replay recs rc) =
           replay_in_order faker_name
             (sort_key lr_id (filter (\<lambda>r. lr_room_name r = rp_room_name rc) recs))
             (rp_send_json \<lparr>n_eventtype = ''reset_scene'', n_args = NoArgs\<rparr> rc)
         \<and> sorted (map lr_id (sort_key lr_id (filter (\<lambda>r. lr_room_name r = rp_room_name rc) recs)))
         \<and> wait_then_send faker_name (map (created_at_update f) recs)
               (init_replay (map (created_at_update f) recs) rc) =
             wait_then_send faker_name recs (init_replay recs rc)"
proof -
  have d: "distinct (map lr_id (map (created_at_update f) recs))"
    using assms by (simp add: o_def)
  have "wait_then_send faker_name (map (created_at_update f) recs)
               (init_replay (map (created_at_update f) recs) rc) =
        wait_then_send faker_name recs (init_replay recs rc)"
    unfolding init_replay_replays [OF d] init_replay_replays [OF assms]
    by (simp only: room_records_created_at replay_in_order_created_at)
  then show ?thesis using init_replay_replays [OF assms] by simp
qed

theorem replay_in_ascending_id_order_witness:
  "wait_then_send (\<lambda>n. ''Ada'')
     [\<lparr>lr_id = 1, lr_room_name = ''r'', event_type = ''elements_changed'', user_pseudonym = ''p'', created_at = Some 30, lr_content = ElementsContent [\<lparr>el_id = ''A'', version = 1, isDeleted = None, el_fields = []\<rparr>]\<rparr>,
      \<lparr>lr_id = 2, lr_room_name = ''r'', event_type = ''collaborator_change'', user_pseudonym = ''p'', created_at = Some 20, lr_content = ChangeContent [(''pointer'', JInt 1)]\<rparr>,
      \<lparr>lr_id = 3, lr_room_name = ''r'', event_type = ''full_sync'', user_pseudonym = ''q'', created_at = Some 10, lr_content = ElementsContent [\<lparr>el_id = ''A'', version = 2, isDeleted = None, el_fields = []\<rparr>]\<rparr>,
      \<lparr>lr_id = 4, lr_room_name = ''other'', event_type = ''full_sync'', user_pseudonym = ''q'', created_at = Some 5, lr_content = ElementsContent []\<rparr>]
     (init_replay
        [\<lparr>lr_id = 1, lr_room_name = ''r'', event_type = ''elements_changed'', user_pseudonym = ''p'', created_at = Some 30, lr_content = ElementsContent [\<lparr>el_id = ''A'', version = 1, isDeleted = None, el_fields = []\<rparr>]\<rparr>,
         \<lparr>lr_id = 2, lr_room_name = ''r'', event_type = ''collaborator_change'', user_pseudonym = ''p'', created_at = Some 20, lr_content = ChangeContent [(''pointer'', JInt 1)]\<rparr>,
         \<lparr>lr_id = 3, lr_room_name = ''r'', event_type = ''full_sync'', user_pseudonym = ''q'', created_at = Some 10, lr_content = ElementsContent [\<lparr>el_id = ''A'', version = 2, isDeleted = None, el_fields = []\<rparr>]\<rparr>,
         \<lparr>lr_id = 4, lr_room_name = ''other'', event_type = ''full_sync'', user_pseudonym = ''q'', created_at = Some 5, lr_content = ElementsContent []\<rparr>]
        \<lparr>rp_room_name = ''r'', log_record_ids = [], encountered_user_pseudonyms = [], faker_calls = 0, replay_task = False, rp_sent = []\<rparr>)
   = Inr \<lparr>rp_room_name = ''r'', log_record_ids = [],
          encountered_user_pseudonyms = [(''p'', ''Ada'')], faker_calls = 1, replay_task = True,
          rp_sent =
            [\<lparr>n_eventtype = ''reset_scene'', n_args = NoArgs\<rparr>,
             \<lparr>n_eventtype = ''elements_changed'', n_args = ElementsArgs (ElementsContent [\<lparr>el_id = ''A'', version = 1, isDeleted = None, el_fields = []\<rparr>]) []\<rparr>,
             \<lparr>n_eventtype = ''collaborator_change'', n_args = ChangesArgs [[(''pointer'', JInt 1), (''username'', JStr ''Ada''), (''userRoomId'', JStr ''p'')]]\<rparr>,
             \<lparr>n_eventtype = ''full_sync'', n_args = ElementsArgs (ElementsContent [\<lparr>el_id = ''A'', version = 2, isDeleted = None, el_fields = []\<rparr>]) []\<rparr>,
             \<lparr>n_eventtype = ''pause_replay'', n_args = NoArgs\<rparr>]\<rparr>"
proof -
  have d: "distinct (map lr_id
     [\<lparr>lr_id = 1, lr_room_name = ''r'', event_type = ''elements_changed'', user_pseudonym = ''p'', created_at = Some 30, lr_content = ElementsContent [\<lparr>el_id = ''A'', version = 1, isDeleted = None, el_fields = []\<rparr>]\<rparr>,
      \<lparr>lr_id = 2, lr_room_name = ''r'', event_type = ''collaborator_change'', user_pseudonym = ''p'', created_at = Some 20, lr_content = ChangeContent [(''pointer'', JInt 1)]\<rparr>,
      \<lparr>lr_id = 3, lr_room_name = ''r'', event_type = ''full_sync'', user_pseudonym = ''q'', created_at = Some 10, lr_content = ElementsContent [\<lparr>el_id = ''A'', version = 2, isDeleted = None, el_fields = []\<rparr>]\<rparr>,
      \<lparr>lr_id = 4, lr_room_name = ''other'', event_type = ''full_sync'', user_pseudonym = ''q'', created_at = Some 5, lr_content = ElementsContent []\<rparr>])"
    by simp
  from replay_in_ascending_id_order [OF d, of "\<lambda>n. ''Ada''" "\<lparr>rp_room_name = ''r'', log_record_ids = [], encountered_user_pseudonyms = [], faker_calls = 0, replay_task = False, rp_sent = []\<rparr>" id]
  show ?thesis
    by (simp add: emit_record_def rp_send_json_def pseudonym_name_def Let_def)
qed

end
